theory Spec2Isabelle
  imports Main "HOL-Library.Sublist"
begin

section \<open>The header \<open>include/macros.h\<close>\<close>

text \<open>
  The header defines four function-like, variadic preprocessor macros, once in the branch
  taken when \<open>OMPGPU\<close> is defined and once in the \<open>#else\<close> branch. A macro is
  its list of named parameters (those written before \<open>...\<close>) and its replacement
  list. The replacement list is cut at every parameter: literal text, a named
  parameter, or \<open>__VA_ARGS__\<close>.
\<close>

datatype piece = Text string | Param string | VA_ARGS

record macro =
  params :: "string list"
  body :: "piece list"

text \<open>Lines 3 to 6 of the header: the definitions under \<open>#ifdef OMPGPU\<close>.\<close>

definition omp_defines :: "(string \<times> macro) list" where
  "omp_defines =
    [(''GPU_DATA_ALLOC'',
        \<lparr>params = [],
         body = [Text ''!$omp target data map(alloc: '', VA_ARGS, Text '')'']\<rparr>),
     (''GPU_DATA_PRESENT_SIMPLE'',
        \<lparr>params = [],
         body = [Text ''!$omp target enter data map(present: '', VA_ARGS, Text '')'']\<rparr>),
     (''GPU_DATA_PRESENT_IF'',
        \<lparr>params = [''condition_arg''],
         body = [Text ''!$omp target enter data if('', Param ''condition_arg'',
                 Text '') map(present: '', VA_ARGS, Text '')'']\<rparr>),
     (''GPU_DATA_PRESENT_COPY'',
        \<lparr>params = [''condition_arg'', ''copyin_arg'', ''copy_arg''],
         body = [Text ''!$omp target enter data if('', Param ''condition_arg'',
                 Text '') map(present: '', VA_ARGS,
                 Text '') map(to: '', Param ''copyin_arg'',
                 Text '') map(tofrom: '', Param ''copy_arg'', Text '')'']\<rparr>)]"

text \<open>Lines 10 to 13 of the header: the definitions under \<open>#else\<close>.\<close>

definition acc_defines :: "(string \<times> macro) list" where
  "acc_defines =
    [(''GPU_DATA_ALLOC'',
        \<lparr>params = [],
         body = [Text ''!$acc enter data create('', VA_ARGS, Text '')'']\<rparr>),
     (''GPU_DATA_PRESENT_SIMPLE'',
        \<lparr>params = [],
         body = [Text ''!$acc data present('', VA_ARGS, Text '')'']\<rparr>),
     (''GPU_DATA_PRESENT_IF'',
        \<lparr>params = [''condition_arg''],
         body = [Text ''!$acc data present('', VA_ARGS,
                 Text '') if('', Param ''condition_arg'', Text '')'']\<rparr>),
     (''GPU_DATA_PRESENT_COPY'',
        \<lparr>params = [''condition_arg'', ''copyin_arg'', ''copy_arg''],
         body = [Text ''!$acc data present('', VA_ARGS,
                 Text '') copyin('', Param ''copyin_arg'',
                 Text '') copy('', Param ''copy_arg'',
                 Text '') if('', Param ''condition_arg'', Text '')'']\<rparr>)]"

text \<open>
  \<open>#ifdef OMPGPU ... #else ... #endif\<close>: the mode flag is whether the name
  \<open>OMPGPU\<close> is defined when the header is read. Exactly one of the two groups of
  definitions is kept.
\<close>

definition macros_h :: "bool \<Rightarrow> (string \<times> macro) list" where
  "macros_h ompgpu = (if ompgpu then omp_defines else acc_defines)"

section \<open>Macro replacement\<close>

text \<open>
  A call \<open>NAME(a1, a2, ...)\<close> is given by the list of its arguments, as the preprocessor
  separates them at the commas of the call, each argument being the text that is
  substituted for its parameter (after any macro call inside the argument has itself
  been replaced, see \<open>call\<close> below). The named parameters take the leading arguments, one
  each; the
  remaining arguments, with the commas between them, replace \<open>__VA_ARGS__\<close>. The
  variable part may be empty. A call with fewer arguments than named parameters is
  rejected by the preprocessor, and a name the header does not define is not a macro.
  White space between tokens is not modelled: the replacement list keeps the blanks of
  the header, and the commas of the variable part are written without blanks.
\<close>

datatype error = Not_A_Macro | Too_Few_Arguments

fun va_args :: "string list \<Rightarrow> string" where
  "va_args [] = []"
| "va_args [a] = a"
| "va_args (a # b # bs) = a @ '','' @ va_args (b # bs)"

fun replace_piece :: "(string \<times> string) list \<Rightarrow> string list \<Rightarrow> piece \<Rightarrow> string" where
  "replace_piece bound rest (Text s) = s"
| "replace_piece bound rest (Param p) = (case map_of bound p of Some a \<Rightarrow> a | None \<Rightarrow> p)"
| "replace_piece bound rest VA_ARGS = va_args rest"

definition replace :: "macro \<Rightarrow> string list \<Rightarrow> error + string" where
  "replace m args =
    (let n = length (params m) in
     if length args < n then Inl Too_Few_Arguments
     else Inr (concat (map (replace_piece (zip (params m) (take n args)) (drop n args))
                           (body m))))"

definition expand :: "bool \<Rightarrow> string \<Rightarrow> string list \<Rightarrow> error + string" where
  "expand ompgpu name args =
    (case map_of (macros_h ompgpu) name of
       None \<Rightarrow> Inl Not_A_Macro
     | Some m \<Rightarrow> replace m args)"

text \<open>The four macros as functions of the mode flag and the arguments of the call.\<close>

definition GPU_DATA_ALLOC :: "bool \<Rightarrow> string list \<Rightarrow> error + string" where
  "GPU_DATA_ALLOC ompgpu args = expand ompgpu ''GPU_DATA_ALLOC'' args"

definition GPU_DATA_PRESENT_SIMPLE :: "bool \<Rightarrow> string list \<Rightarrow> error + string" where
  "GPU_DATA_PRESENT_SIMPLE ompgpu args = expand ompgpu ''GPU_DATA_PRESENT_SIMPLE'' args"

definition GPU_DATA_PRESENT_IF :: "bool \<Rightarrow> string list \<Rightarrow> error + string" where
  "GPU_DATA_PRESENT_IF ompgpu args = expand ompgpu ''GPU_DATA_PRESENT_IF'' args"

definition GPU_DATA_PRESENT_COPY :: "bool \<Rightarrow> string list \<Rightarrow> error + string" where
  "GPU_DATA_PRESENT_COPY ompgpu args = expand ompgpu ''GPU_DATA_PRESENT_COPY'' args"

section \<open>Vocabulary of the properties\<close>

text \<open>The names the header defines, in the order of their definitions.\<close>

definition macro_names :: "string list" where
  "macro_names = [''GPU_DATA_ALLOC'', ''GPU_DATA_PRESENT_SIMPLE'', ''GPU_DATA_PRESENT_IF'',
                  ''GPU_DATA_PRESENT_COPY'']"

text \<open>The Fortran directive sentinel of each mode.\<close>

definition sentinel :: "bool \<Rightarrow> string" where
  "sentinel ompgpu = (if ompgpu then ''!$omp '' else ''!$acc '')"

text \<open>
  The clauses of a directive, as they are spelled in each mode: the guard, residency on
  the device, transfer to the device only, and transfer in both directions. A list of
  identifiers is written with a comma before every identifier but the first.
\<close>

fun comma_separated :: "string list \<Rightarrow> string" where
  "comma_separated [] = []"
| "comma_separated (x # xs) = x @ concat (map (\<lambda>y. '','' @ y) xs)"

definition if_clause :: "string \<Rightarrow> string" where
  "if_clause cond = ''if('' @ cond @ '')''"

definition present_clause :: "bool \<Rightarrow> string list \<Rightarrow> string" where
  "present_clause ompgpu objs =
     (if ompgpu then ''map(present: '' else ''present('') @ comma_separated objs @ '')''"

definition copyin_clause :: "bool \<Rightarrow> string \<Rightarrow> string" where
  "copyin_clause ompgpu a = (if ompgpu then ''map(to: '' else ''copyin('') @ a @ '')''"

definition copy_clause :: "bool \<Rightarrow> string \<Rightarrow> string" where
  "copy_clause ompgpu a = (if ompgpu then ''map(tofrom: '' else ''copy('') @ a @ '')''"

text \<open>The number of positions of a text at which a given word starts.\<close>

fun occurrences :: "string \<Rightarrow> string \<Rightarrow> nat" where
  "occurrences w [] = (if w = [] then 1 else 0)"
| "occurrences w (c # cs) = (if prefix w (c # cs) then 1 else 0) + occurrences w cs"

section \<open>Macro replacement inside the arguments\<close>

text \<open>
  Before an argument is substituted for its parameter, the preprocessor replaces the
  macros the argument names. In scope at a call are the four macros of the header and,
  where the header has taken its first branch, the name \<open>OMPGPU\<close> itself:
  \<open>#ifdef OMPGPU\<close> holds only if \<open>OMPGPU\<close> is a macro. What \<open>OMPGPU\<close> stands for is
  not in the header: \<open>-DOMPGPU\<close> on the command line makes it \<open>1\<close>, \<open>#define OMPGPU\<close>
  makes it nothing. It is given here as \<open>Some\<close> of its replacement list, and as \<open>None\<close>
  when the name is not defined; the mode flag is whether it is defined. Macros that a
  program defines elsewhere, and those the preprocessor predefines, are outside this
  development.

  An argument as written is a list of preprocessing tokens. A token carries a mark once
  it can no longer be replaced: the name \<open>OMPGPU\<close> inside its own replacement list, and
  the text that a call nested in the argument has expanded to (no word of the header's
  replacement lists is a macro in scope).
\<close>

type_synonym ptoken = "string \<times> bool"

datatype call_error = Rejected error | Unterminated_Call

text \<open>
  The tokens of an argument as the program has them, none of them marked; the text of a
  token list, its tokens written next to each other (blanks between tokens are not
  modelled); and the replacement list of \<open>OMPGPU\<close> as it is read again, the name
  \<open>OMPGPU\<close> in it marked.
\<close>

definition written :: "string list \<Rightarrow> ptoken list" where
  "written ts = map (\<lambda>s. (s, False)) ts"

definition spelling :: "ptoken list \<Rightarrow> string" where
  "spelling ts = concat (map fst ts)"

definition stands_for :: "string list \<Rightarrow> ptoken list" where
  "stands_for r = map (\<lambda>s. (s, s = ''OMPGPU'')) r"

text \<open>A macro name starts a call only if the next token is the opening parenthesis.\<close>

fun opens_call :: "ptoken list \<Rightarrow> bool" where
  "opens_call [] = False"
| "opens_call ((s, p) # ts) = (s = ''('')"

text \<open>
  The arguments of a nested call, read from the tokens after its opening parenthesis up
  to the matching closing one and separated at the commas outside inner parentheses;
  the tokens after the call are returned with them.
\<close>

fun collect ::
  "nat \<Rightarrow> ptoken list \<Rightarrow> ptoken list \<Rightarrow> (ptoken list list \<times> ptoken list) option" where
  "collect depth cur [] = None"
| "collect depth cur ((s, p) # ts) =
    (if s = '')'' then
       (if depth = 0 then Some ([cur], ts) else collect (depth - 1) (cur @ [(s, p)]) ts)
     else if s = ''('' then collect (Suc depth) (cur @ [(s, p)]) ts
     else if s = '','' \<and> depth = 0 then
       (case collect 0 [] ts of
          None \<Rightarrow> None
        | Some (as, rest) \<Rightarrow> Some (cur # as, rest))
     else collect depth (cur @ [(s, p)]) ts)"

text \<open>
  The replacement of the macros in a token list, from left to right. The name \<open>OMPGPU\<close>
  gives way to what it stands for, which is read again together with the tokens that
  follow. A call of one of the four macros has its arguments replaced first and then
  expands as the header says.
\<close>

function scan :: "string list option \<Rightarrow> ptoken list \<Rightarrow> call_error + ptoken list"
  and scan_args :: "string list option \<Rightarrow> ptoken list list \<Rightarrow> call_error + ptoken list list"
  where
  "scan v [] = Inr []"
| "scan v ((s, p) # ts) =
    (case (if \<not> p \<and> s = ''OMPGPU'' then v else None) of
       Some r \<Rightarrow> scan v (stands_for r @ ts)
     | None \<Rightarrow>
        (if \<not> p \<and> s \<in> set macro_names \<and> opens_call ts then
           (case collect 0 [] (tl ts) of
              None \<Rightarrow> Inl Unterminated_Call
            | Some (as, rest) \<Rightarrow>
                (case scan_args v as of
                   Inl e \<Rightarrow> Inl e
                 | Inr as' \<Rightarrow>
                     (case expand (v \<noteq> None) s (map spelling as') of
                        Inl e \<Rightarrow> Inl (Rejected e)
                      | Inr expansion \<Rightarrow>
                          (case scan v rest of
                             Inl e \<Rightarrow> Inl e
                           | Inr r \<Rightarrow> Inr ((expansion, True) # r)))))
         else (case scan v ts of Inl e \<Rightarrow> Inl e | Inr r \<Rightarrow> Inr ((s, p) # r))))"
| "scan_args v [] = Inr []"
| "scan_args v (a # as) =
    (case scan v a of
       Inl e \<Rightarrow> Inl e
     | Inr a' \<Rightarrow> (case scan_args v as of Inl e \<Rightarrow> Inl e | Inr as' \<Rightarrow> Inr (a' # as')))"
  by pat_completeness auto


text \<open>The macros in scope at a call, and whether an argument names one of them.\<close>

definition in_scope :: "string list option \<Rightarrow> string list" where
  "in_scope v = (if v = None then [] else [''OMPGPU'']) @ macro_names"

definition names_macro :: "string list option \<Rightarrow> string list \<Rightarrow> bool" where
  "names_macro v a = list_ex (\<lambda>s. s \<in> set (in_scope v)) a"

text \<open>The tokens of a list that still await replacement by what \<open>OMPGPU\<close> stands for.\<close>

definition pending :: "ptoken list \<Rightarrow> nat" where
  "pending ts = length (filter (\<lambda>(s, p). s = ''OMPGPU'' \<and> \<not> p) ts)"

section \<open>The expansions in closed form\<close>

lemma ALLOC_omp:
  "GPU_DATA_ALLOC True objs = Inr (''!$omp target data map(alloc: '' @ va_args objs @ '')'')"
  by (simp add: GPU_DATA_ALLOC_def expand_def macros_h_def omp_defines_def replace_def)

lemma ALLOC_acc:
  "GPU_DATA_ALLOC False objs = Inr (''!$acc enter data create('' @ va_args objs @ '')'')"
  by (simp add: GPU_DATA_ALLOC_def expand_def macros_h_def acc_defines_def replace_def)

lemma PRESENT_SIMPLE_omp:
  "GPU_DATA_PRESENT_SIMPLE True objs =
     Inr (''!$omp target enter data map(present: '' @ va_args objs @ '')'')"
  by (simp add: GPU_DATA_PRESENT_SIMPLE_def expand_def macros_h_def omp_defines_def replace_def)

lemma PRESENT_SIMPLE_acc:
  "GPU_DATA_PRESENT_SIMPLE False objs = Inr (''!$acc data present('' @ va_args objs @ '')'')"
  by (simp add: GPU_DATA_PRESENT_SIMPLE_def expand_def macros_h_def acc_defines_def replace_def)

lemma PRESENT_IF_omp:
  "GPU_DATA_PRESENT_IF True (cond # objs) =
     Inr (''!$omp target enter data if('' @ cond @ '') map(present: '' @ va_args objs @ '')'')"
  by (simp add: GPU_DATA_PRESENT_IF_def expand_def macros_h_def omp_defines_def replace_def)

lemma PRESENT_IF_acc:
  "GPU_DATA_PRESENT_IF False (cond # objs) =
     Inr (''!$acc data present('' @ va_args objs @ '') if('' @ cond @ '')'')"
  by (simp add: GPU_DATA_PRESENT_IF_def expand_def macros_h_def acc_defines_def replace_def)

lemma PRESENT_COPY_omp:
  "GPU_DATA_PRESENT_COPY True (cond # copyin # copy # objs) =
     Inr (''!$omp target enter data if('' @ cond @ '') map(present: '' @ va_args objs @
          '') map(to: '' @ copyin @ '') map(tofrom: '' @ copy @ '')'')"
  by (simp add: GPU_DATA_PRESENT_COPY_def expand_def macros_h_def omp_defines_def replace_def)

lemma PRESENT_COPY_acc:
  "GPU_DATA_PRESENT_COPY False (cond # copyin # copy # objs) =
     Inr (''!$acc data present('' @ va_args objs @ '') copyin('' @ copyin @
          '') copy('' @ copy @ '') if('' @ cond @ '')'')"
  by (simp add: GPU_DATA_PRESENT_COPY_def expand_def macros_h_def acc_defines_def replace_def)

text \<open>Fewer arguments than named parameters: the call is rejected in both modes.\<close>

lemma PRESENT_IF_too_few: "GPU_DATA_PRESENT_IF ompgpu [] = Inl Too_Few_Arguments"
  by (simp add: GPU_DATA_PRESENT_IF_def expand_def macros_h_def omp_defines_def
        acc_defines_def replace_def)

lemma PRESENT_COPY_too_few:
  "length args < 3 \<Longrightarrow> GPU_DATA_PRESENT_COPY ompgpu args = Inl Too_Few_Arguments"
  by (simp add: GPU_DATA_PRESENT_COPY_def expand_def macros_h_def omp_defines_def
        acc_defines_def replace_def)

section \<open>Clauses inside the expansions\<close>

lemma sublist_mid: "t = ps @ xs @ ss \<Longrightarrow> sublist xs t"
  by (auto simp: sublist_def)

lemma va_args_comma_separated: "va_args xs = comma_separated xs"
  by (induction xs rule: va_args.induct) simp_all



lemma PRESENT_COPY_omp_clauses:
  fixes cond copyin copy :: string and objs :: "string list"
  defines "t \<equiv> ''!$omp target enter data if('' @ cond @ '') map(present: '' @
                 va_args objs @ '') map(to: '' @ copyin @ '') map(tofrom: '' @ copy @ '')''"
  shows "sublist (copyin_clause True copyin) t" "sublist (copy_clause True copy) t"
        "sublist (present_clause True objs) t" "sublist (if_clause cond) t"
proof -
  show "sublist (copyin_clause True copyin) t"
    by (rule sublist_mid[where ps = "''!$omp target enter data if('' @ cond @
           '') map(present: '' @ va_args objs @ '') ''"
           and ss = "'' map(tofrom: '' @ copy @ '')''"])
       (simp add: t_def copyin_clause_def)
  show "sublist (copy_clause True copy) t"
    by (rule sublist_mid[where ps = "''!$omp target enter data if('' @ cond @
           '') map(present: '' @ va_args objs @ '') map(to: '' @ copyin @ '') ''"
           and ss = "[]"])
       (simp add: t_def copy_clause_def)
  show "sublist (present_clause True objs) t"
    by (rule sublist_mid[where ps = "''!$omp target enter data if('' @ cond @ '') ''"
           and ss = "'' map(to: '' @ copyin @ '') map(tofrom: '' @ copy @ '')''"])
       (simp add: t_def present_clause_def va_args_comma_separated)
  show "sublist (if_clause cond) t"
    by (rule sublist_mid[where ps = "''!$omp target enter data ''"
           and ss = "'' map(present: '' @ va_args objs @ '') map(to: '' @ copyin @
                     '') map(tofrom: '' @ copy @ '')''"])
       (simp add: t_def if_clause_def)
qed

lemma PRESENT_COPY_acc_clauses:
  fixes cond copyin copy :: string and objs :: "string list"
  defines "t \<equiv> ''!$acc data present('' @ va_args objs @ '') copyin('' @ copyin @
                 '') copy('' @ copy @ '') if('' @ cond @ '')''"
  shows "sublist (copyin_clause False copyin) t" "sublist (copy_clause False copy) t"
        "sublist (present_clause False objs) t" "sublist (if_clause cond) t"
proof -
  show "sublist (copyin_clause False copyin) t"
    by (rule sublist_mid[where ps = "''!$acc data present('' @ va_args objs @ '') ''"
           and ss = "'' copy('' @ copy @ '') if('' @ cond @ '')''"])
       (simp add: t_def copyin_clause_def)
  show "sublist (copy_clause False copy) t"
    by (rule sublist_mid[where ps = "''!$acc data present('' @ va_args objs @
           '') copyin('' @ copyin @ '') ''" and ss = "'' if('' @ cond @ '')''"])
       (simp add: t_def copy_clause_def)
  show "sublist (present_clause False objs) t"
    by (rule sublist_mid[where ps = "''!$acc data ''"
           and ss = "'' copyin('' @ copyin @ '') copy('' @ copy @ '') if('' @ cond @ '')''"])
       (simp add: t_def present_clause_def va_args_comma_separated)
  show "sublist (if_clause cond) t"
    by (rule sublist_mid[where ps = "''!$acc data present('' @ va_args objs @
           '') copyin('' @ copyin @ '') copy('' @ copy @ '') ''" and ss = "[]"])
       (simp add: t_def if_clause_def)
qed

section \<open>Termination of the replacement\<close>

lemma pending_Nil: "pending [] = 0"
  by (simp add: pending_def)

lemma pending_Cons:
  "pending ((s, p) # ts) = (if s = ''OMPGPU'' \<and> \<not> p then 1 else 0) + pending ts"
  by (simp add: pending_def)

lemma pending_append: "pending (xs @ ys) = pending xs + pending ys"
  by (simp add: pending_def)

lemma pending_stands_for: "pending (stands_for r) = 0"
  by (induction r) (simp_all add: stands_for_def pending_def)

lemma pending_tl: "pending (tl ts) \<le> pending ts"
  by (cases ts) (auto simp: pending_Nil pending_Cons)

lemma collect_length:
  "collect d cur ts = Some (as, rest) \<Longrightarrow>
     sum_list (map length as) + length as + length rest \<le> length cur + length ts"
proof (induction d cur ts arbitrary: as rest rule: collect.induct)
  case (1 depth cur)
  then show ?case by simp
next
  case (2 depth cur s p ts)
  then show ?case
    by (auto split: if_splits option.splits)
qed

lemma collect_pending:
  "collect d cur ts = Some (as, rest) \<Longrightarrow>
     sum_list (map pending as) + pending rest \<le> pending cur + pending ts"
proof (induction d cur ts arbitrary: as rest rule: collect.induct)
  case (1 depth cur)
  then show ?case by simp
next
  case (2 depth cur s p ts)
  then show ?case
    by (auto simp: pending_Nil pending_Cons pending_append split: if_splits option.splits)
qed

lemma collect_call:
  assumes "opens_call ts" and "collect 0 [] (tl ts) = Some (as, rest)"
  shows "sum_list (map pending as) \<le> pending ts" and "pending rest \<le> pending ts"
    and "sum_list (map length as) + length as < Suc (length ts)"
    and "length rest < Suc (length ts)"
proof -
  from assms(1) have ne: "ts \<noteq> []" by (cases ts) auto
  then have l: "length (tl ts) < length ts" by simp
  from collect_length[OF assms(2)] l
  show "sum_list (map length as) + length as < Suc (length ts)"
    and "length rest < Suc (length ts)" by simp_all
  from collect_pending[OF assms(2)] pending_tl[of ts]
  show "sum_list (map pending as) \<le> pending ts" and "pending rest \<le> pending ts"
    by (simp_all add: pending_Nil)
qed

termination scan
  apply (relation "measures
    [\<lambda>x. case x of Inl (v, ts) \<Rightarrow> pending ts | Inr (v, as) \<Rightarrow> sum_list (map pending as),
     \<lambda>x. case x of Inl (v, ts) \<Rightarrow> length ts
                   | Inr (v, as) \<Rightarrow> sum_list (map length as) + length as]")
  subgoal by simp
  subgoal by (auto simp: pending_Cons pending_append pending_stands_for
                split: if_splits dest: collect_call)
  subgoal by (auto simp: pending_Cons pending_append pending_stands_for
                split: if_splits dest: collect_call)
  subgoal by (auto simp: pending_Cons pending_append pending_stands_for
                split: if_splits dest: collect_call)
  subgoal by (auto simp: pending_Cons pending_append pending_stands_for
                split: if_splits dest: collect_call)
  subgoal by auto
  subgoal by auto
  done

section \<open>Arguments that name no macro\<close>

lemma scan_unnamed:
  "\<not> names_macro v a \<Longrightarrow> scan v (written a) = Inr (written a)"
proof (induction a)
  case Nil
  then show ?case by (simp add: written_def)
next
  case (Cons s a)
  then have "s \<noteq> ''OMPGPU'' \<or> v = None" and "s \<notin> set macro_names" and "\<not> names_macro v a"
    by (auto simp: names_macro_def in_scope_def split: if_splits)
  with Cons.IH show ?case
    by (auto simp: written_def)
qed


lemma scan_args_unnamed:
  "\<forall>a \<in> set args. \<not> names_macro v a \<Longrightarrow>
     scan_args v (map written args) = Inr (map written args)"
  by (induction args) (simp_all add: scan_unnamed)


section \<open>Replacement and what \<open>OMPGPU\<close> stands for\<close>



text \<open>No text of a replacement list names a macro in scope.\<close>

lemma header_names_no_macro:
  "list_all
     (\<lambda>(n, m). list_all
        (\<lambda>pc. case pc of
                Text s \<Rightarrow> \<not> sublist ''OMPGPU'' s \<and> \<not> sublist ''GPU_DATA'' s
              | _ \<Rightarrow> True)
        (body m))
     (macros_h ompgpu)"
  by (cases ompgpu)
     (simp_all add: macros_h_def omp_defines_def acc_defines_def sublist_code(3))

section \<open>The properties\<close>

text \<open>
  C1. In both modes, for every guard, copy-in argument, copy-out argument and non-empty
  list of data objects, \<open>GPU_DATA_PRESENT_COPY\<close> expands, and its expansion contains the
  copy-in argument in the copy-in-only clause (\<open>map(to: )\<close> or \<open>copyin()\<close>), the copy-out
  argument in the bidirectional clause (\<open>map(tofrom: )\<close> or \<open>copy()\<close>), the data objects,
  separated by commas, in the present clause, and the guard in the \<open>if()\<close> clause. The
  arguments are the texts substituted for the parameters.
\<close>

theorem present_copy_clauses:
  assumes "objs \<noteq> []"
  shows "\<exists>t. GPU_DATA_PRESENT_COPY ompgpu (cond # copyin # copy # objs) = Inr t \<and>
             sublist (copyin_clause ompgpu copyin) t \<and>
             sublist (copy_clause ompgpu copy) t \<and>
             sublist (present_clause ompgpu objs) t \<and>
             sublist (if_clause cond) t"
proof (cases ompgpu)
  case True
  then have m: "ompgpu = True" by simp
  show ?thesis unfolding m
    by (intro exI conjI, rule PRESENT_COPY_omp) (rule PRESENT_COPY_omp_clauses)+
next
  case False
  then have m: "ompgpu = False" by simp
  show ?thesis unfolding m
    by (intro exI conjI, rule PRESENT_COPY_acc) (rule PRESENT_COPY_acc_clauses)+
qed

theorem present_copy_clauses_witness:
  "[''u'', ''v''] \<noteq> [] \<and>
   (\<exists>t. GPU_DATA_PRESENT_COPY True [''n > 0'', ''x'', ''y'', ''u'', ''v''] = Inr t \<and>
        sublist ''map(to: x)'' t \<and> sublist ''map(tofrom: y)'' t \<and>
        sublist ''map(present: u,v)'' t \<and> sublist ''if(n > 0)'' t) \<and>
   (\<exists>t. GPU_DATA_PRESENT_COPY False [''n > 0'', ''x'', ''y'', ''u'', ''v''] = Inr t \<and>
        sublist ''copyin(x)'' t \<and> sublist ''copy(y)'' t \<and>
        sublist ''present(u,v)'' t \<and> sublist ''if(n > 0)'' t)"
  using present_copy_clauses[of "[''u'', ''v'']" True "''n > 0''" "''x''" "''y''"]
        present_copy_clauses[of "[''u'', ''v'']" False "''n > 0''" "''x''" "''y''"]
  by (simp add: copyin_clause_def copy_clause_def present_clause_def if_clause_def)

text \<open>
  C2. For every non-empty list of data objects, \<open>GPU_DATA_ALLOC\<close> expands to the
  allocate-on-device directive \<open>map(alloc: objs)\<close> when \<open>OMPGPU\<close> is defined and to the
  create-on-device directive \<open>create(objs)\<close> otherwise. For the single object \<open>bufferA\<close>
  the name \<open>bufferA\<close> occurs exactly once in the expansion of each mode.
\<close>

theorem alloc_directive:
  assumes "objs \<noteq> []"
  shows "GPU_DATA_ALLOC True objs = Inr (''!$omp target data map(alloc: '' @ va_args objs @ '')'') \<and>
         GPU_DATA_ALLOC False objs = Inr (''!$acc enter data create('' @ va_args objs @ '')'') \<and>
         GPU_DATA_ALLOC True [''bufferA''] = Inr ''!$omp target data map(alloc: bufferA)'' \<and>
         occurrences ''bufferA'' ''!$omp target data map(alloc: bufferA)'' = 1 \<and>
         GPU_DATA_ALLOC False [''bufferA''] = Inr ''!$acc enter data create(bufferA)'' \<and>
         occurrences ''bufferA'' ''!$acc enter data create(bufferA)'' = 1"
proof (intro conjI)
  show "GPU_DATA_ALLOC True objs = Inr (''!$omp target data map(alloc: '' @ va_args objs @ '')'')"
    by (rule ALLOC_omp)
  show "GPU_DATA_ALLOC False objs = Inr (''!$acc enter data create('' @ va_args objs @ '')'')"
    by (rule ALLOC_acc)
  show "GPU_DATA_ALLOC True [''bufferA''] = Inr ''!$omp target data map(alloc: bufferA)''"
    by (simp add: ALLOC_omp)
  show "GPU_DATA_ALLOC False [''bufferA''] = Inr ''!$acc enter data create(bufferA)''"
    by (simp add: ALLOC_acc)
  show "occurrences ''bufferA'' ''!$omp target data map(alloc: bufferA)'' = 1"
    by simp
  show "occurrences ''bufferA'' ''!$acc enter data create(bufferA)'' = 1"
    by simp
qed

theorem alloc_directive_witness:
  "[''a'', ''b''] \<noteq> [] \<and>
   GPU_DATA_ALLOC True [''a'', ''b''] = Inr ''!$omp target data map(alloc: a,b)'' \<and>
   GPU_DATA_ALLOC False [''a'', ''b''] = Inr ''!$acc enter data create(a,b)''"
  using alloc_directive[of "[''a'', ''b'']"] by simp

text \<open>
  C3. For every non-empty list of data objects, \<open>GPU_DATA_PRESENT_SIMPLE\<close> expands to the
  enter-data directive with \<open>map(present: objs)\<close> when \<open>OMPGPU\<close> is defined and to the
  data-region directive with \<open>present(objs)\<close> otherwise.
\<close>

theorem present_simple_directive:
  assumes "objs \<noteq> []"
  shows "GPU_DATA_PRESENT_SIMPLE True objs =
           Inr (''!$omp target enter data map(present: '' @ va_args objs @ '')'') \<and>
         GPU_DATA_PRESENT_SIMPLE False objs =
           Inr (''!$acc data present('' @ va_args objs @ '')'')"
  by (intro conjI PRESENT_SIMPLE_omp PRESENT_SIMPLE_acc)

theorem present_simple_directive_witness:
  "[''a'', ''b''] \<noteq> [] \<and>
   GPU_DATA_PRESENT_SIMPLE True [''a'', ''b''] = Inr ''!$omp target enter data map(present: a,b)'' \<and>
   GPU_DATA_PRESENT_SIMPLE False [''a'', ''b''] = Inr ''!$acc data present(a,b)''"
  using present_simple_directive[of "[''a'', ''b'']"] by simp




text \<open>
  C5. The second and third arguments of \<open>GPU_DATA_PRESENT_COPY\<close> may each be a list of
  identifiers of any length, passed as one argument whose text is the identifiers
  separated by commas (identifiers written directly between the commas of the call are
  arguments of their own). In both modes the call is accepted and the expansion holds
  the whole copy-in list in the copy-in clause and the whole copy-out list in the
  bidirectional-transfer clause. An empty list is accepted too, and its clause then names
  nothing: \<open>map(tofrom: )\<close>, \<open>copyin()\<close>.
\<close>

theorem copy_lists_in_clauses:
  "(\<exists>t. GPU_DATA_PRESENT_COPY ompgpu
           (cond # comma_separated copyIn # comma_separated copyOut # objs) = Inr t \<and>
        sublist (copyin_clause ompgpu (comma_separated copyIn)) t \<and>
        sublist (copy_clause ompgpu (comma_separated copyOut)) t) \<and>
   GPU_DATA_PRESENT_COPY True [''c'', ''a,b'', '''', ''x''] =
     Inr ''!$omp target enter data if(c) map(present: x) map(to: a,b) map(tofrom: )'' \<and>
   GPU_DATA_PRESENT_COPY False [''c'', '''', ''a,b,d'', ''x''] =
     Inr ''!$acc data present(x) copyin() copy(a,b,d) if(c)''"
proof (intro conjI)
  show "\<exists>t. GPU_DATA_PRESENT_COPY ompgpu
           (cond # comma_separated copyIn # comma_separated copyOut # objs) = Inr t \<and>
        sublist (copyin_clause ompgpu (comma_separated copyIn)) t \<and>
        sublist (copy_clause ompgpu (comma_separated copyOut)) t"
  proof (cases ompgpu)
    case True
    then have m: "ompgpu = True" by simp
    show ?thesis unfolding m
      by (intro exI conjI, rule PRESENT_COPY_omp) (rule PRESENT_COPY_omp_clauses)+
  next
    case False
    then have m: "ompgpu = False" by simp
    show ?thesis unfolding m
      by (intro exI conjI, rule PRESENT_COPY_acc) (rule PRESENT_COPY_acc_clauses)+
  qed
  show "GPU_DATA_PRESENT_COPY True [''c'', ''a,b'', '''', ''x''] =
     Inr ''!$omp target enter data if(c) map(present: x) map(to: a,b) map(tofrom: )''"
    by (simp add: PRESENT_COPY_omp)
  show "GPU_DATA_PRESENT_COPY False [''c'', '''', ''a,b,d'', ''x''] =
     Inr ''!$acc data present(x) copyin() copy(a,b,d) if(c)''"
    by (simp add: PRESENT_COPY_acc)
qed

text \<open>
  C6. For each value of the mode flag the header defines exactly the four names, each of
  them once, and each of the four macros has an expansion for every call that supplies
  its named parameters: all eight combinations are defined.
\<close>

theorem expansions_defined:
  "map fst (macros_h ompgpu) = macro_names \<and> distinct macro_names \<and>
   (\<exists>t. GPU_DATA_ALLOC ompgpu objs = Inr t) \<and>
   (\<exists>t. GPU_DATA_PRESENT_SIMPLE ompgpu objs = Inr t) \<and>
   (\<exists>t. GPU_DATA_PRESENT_IF ompgpu (cond # objs) = Inr t) \<and>
   (\<exists>t. GPU_DATA_PRESENT_COPY ompgpu (cond # copyin # copy # objs) = Inr t)"
proof (intro conjI)
  show "map fst (macros_h ompgpu) = macro_names"
    by (simp add: macros_h_def omp_defines_def acc_defines_def macro_names_def)
  show "distinct macro_names"
    by (simp add: macro_names_def)
  show "\<exists>t. GPU_DATA_ALLOC ompgpu objs = Inr t"
    by (cases ompgpu) (simp_all add: ALLOC_omp ALLOC_acc)
  show "\<exists>t. GPU_DATA_PRESENT_SIMPLE ompgpu objs = Inr t"
    by (cases ompgpu) (simp_all add: PRESENT_SIMPLE_omp PRESENT_SIMPLE_acc)
  show "\<exists>t. GPU_DATA_PRESENT_IF ompgpu (cond # objs) = Inr t"
    by (cases ompgpu) (simp_all add: PRESENT_IF_omp PRESENT_IF_acc)
  show "\<exists>t. GPU_DATA_PRESENT_COPY ompgpu (cond # copyin # copy # objs) = Inr t"
    by (cases ompgpu) (simp_all add: PRESENT_COPY_omp PRESENT_COPY_acc)
qed

text \<open>
  C7. For each of the four macros and every argument list, both modes produce an
  expansion and the two texts differ, provided the call supplies the named parameters:
  any call of \<open>GPU_DATA_ALLOC\<close> and \<open>GPU_DATA_PRESENT_SIMPLE\<close>, at least one argument for
  \<open>GPU_DATA_PRESENT_IF\<close>, at least three for \<open>GPU_DATA_PRESENT_COPY\<close>. With fewer than
  three arguments \<open>GPU_DATA_PRESENT_COPY\<close> is rejected in both modes and there is no
  expansion to compare.
\<close>

theorem modes_differ:
  "(\<exists>t t'. GPU_DATA_ALLOC True args = Inr t \<and> GPU_DATA_ALLOC False args = Inr t' \<and> t \<noteq> t') \<and>
   (\<exists>t t'. GPU_DATA_PRESENT_SIMPLE True args = Inr t \<and>
           GPU_DATA_PRESENT_SIMPLE False args = Inr t' \<and> t \<noteq> t') \<and>
   (1 \<le> length args \<longrightarrow>
      (\<exists>t t'. GPU_DATA_PRESENT_IF True args = Inr t \<and>
              GPU_DATA_PRESENT_IF False args = Inr t' \<and> t \<noteq> t')) \<and>
   (3 \<le> length args \<longrightarrow>
      (\<exists>t t'. GPU_DATA_PRESENT_COPY True args = Inr t \<and>
              GPU_DATA_PRESENT_COPY False args = Inr t' \<and> t \<noteq> t')) \<and>
   (length args < 3 \<longrightarrow>
      GPU_DATA_PRESENT_COPY True args = Inl Too_Few_Arguments \<and>
      GPU_DATA_PRESENT_COPY False args = Inl Too_Few_Arguments)"
proof (intro conjI impI)
  show "\<exists>t t'. GPU_DATA_ALLOC True args = Inr t \<and> GPU_DATA_ALLOC False args = Inr t' \<and> t \<noteq> t'"
    by (simp add: ALLOC_omp ALLOC_acc)
  show "\<exists>t t'. GPU_DATA_PRESENT_SIMPLE True args = Inr t \<and>
           GPU_DATA_PRESENT_SIMPLE False args = Inr t' \<and> t \<noteq> t'"
    by (simp add: PRESENT_SIMPLE_omp PRESENT_SIMPLE_acc)
  show "\<exists>t t'. GPU_DATA_PRESENT_IF True args = Inr t \<and>
              GPU_DATA_PRESENT_IF False args = Inr t' \<and> t \<noteq> t'" if "1 \<le> length args"
  proof -
    from that obtain cond objs where "args = cond # objs" by (cases args) auto
    then show ?thesis by (simp add: PRESENT_IF_omp PRESENT_IF_acc)
  qed
  show "\<exists>t t'. GPU_DATA_PRESENT_COPY True args = Inr t \<and>
              GPU_DATA_PRESENT_COPY False args = Inr t' \<and> t \<noteq> t'" if "3 \<le> length args"
  proof -
    from that obtain cond copyin copy objs where "args = cond # copyin # copy # objs"
      by (cases args; cases "tl args"; cases "tl (tl args)") auto
    then show ?thesis by (simp add: PRESENT_COPY_omp PRESENT_COPY_acc)
  qed
  show "GPU_DATA_PRESENT_COPY True args = Inl Too_Few_Arguments" if "length args < 3"
    using that by (rule PRESENT_COPY_too_few)
  show "GPU_DATA_PRESENT_COPY False args = Inl Too_Few_Arguments" if "length args < 3"
    using that by (rule PRESENT_COPY_too_few)
qed

theorem modes_differ_witness:
  "1 \<le> length [''c'', ''x'', ''y'', ''u''] \<and> 3 \<le> length [''c'', ''x'', ''y'', ''u''] \<and>
   length [''c'', ''x''] < 3 \<and>
   GPU_DATA_PRESENT_IF True [''c'', ''x'', ''y'', ''u''] =
     Inr ''!$omp target enter data if(c) map(present: x,y,u)'' \<and>
   GPU_DATA_PRESENT_IF False [''c'', ''x'', ''y'', ''u''] =
     Inr ''!$acc data present(x,y,u) if(c)'' \<and>
   GPU_DATA_PRESENT_COPY True [''c'', ''x'', ''y'', ''u''] =
     Inr ''!$omp target enter data if(c) map(present: u) map(to: x) map(tofrom: y)'' \<and>
   GPU_DATA_PRESENT_COPY False [''c'', ''x'', ''y'', ''u''] =
     Inr ''!$acc data present(u) copyin(x) copy(y) if(c)'' \<and>
   GPU_DATA_PRESENT_COPY True [''c'', ''x''] = Inl Too_Few_Arguments \<and>
   GPU_DATA_PRESENT_COPY False [''c'', ''x''] = Inl Too_Few_Arguments"
  using modes_differ[of "[''c'', ''x'', ''y'', ''u'']"] modes_differ[of "[''c'', ''x'']"]
  by (simp add: PRESENT_IF_omp PRESENT_IF_acc PRESENT_COPY_omp PRESENT_COPY_acc)




text \<open>
  C9. Every expansion, of any name with any arguments, is the expansion of one of the four
  macros and begins with the sentinel of the mode: \<open>!$omp \<close> when \<open>OMPGPU\<close> is defined,
  \<open>!$acc \<close> otherwise.
\<close>

theorem expansion_sentinel:
  assumes "expand ompgpu name args = Inr t"
  shows "name \<in> set macro_names \<and> prefix (sentinel ompgpu) t"
  using assms
  by (auto simp: expand_def macros_h_def omp_defines_def acc_defines_def replace_def Let_def
       macro_names_def sentinel_def split: if_splits)

theorem expansion_sentinel_witness:
  "GPU_DATA_PRESENT_IF False [''n > 0'', ''u''] = Inr ''!$acc data present(u) if(n > 0)'' \<and>
   ''GPU_DATA_PRESENT_IF'' \<in> set macro_names \<and>
   prefix (sentinel False) ''!$acc data present(u) if(n > 0)''"
proof -
  have h: "expand False ''GPU_DATA_PRESENT_IF'' [''n > 0'', ''u''] =
             Inr ''!$acc data present(u) if(n > 0)''"
    using PRESENT_IF_acc[of "''n > 0''" "[''u'']"] by (simp add: GPU_DATA_PRESENT_IF_def)
  show ?thesis using expansion_sentinel[OF h] h by (simp add: GPU_DATA_PRESENT_IF_def)
qed

text \<open>
  C10. With \<open>OMPGPU\<close> defined, \<open>GPU_DATA_ALLOC\<close> expands to the structured \<open>target data\<close>
  directive and the three present macros to the unstructured \<open>target enter data\<close>
  directive. Without it, \<open>GPU_DATA_ALLOC\<close> expands to the unstructured
  \<open>enter data create\<close> directive and the three present macros to the structured
  \<open>data present\<close> directive.
\<close>

theorem structured_unstructured_swapped:
  "(\<exists>t. GPU_DATA_ALLOC True objs = Inr t \<and> prefix ''!$omp target data '' t) \<and>
   (\<exists>t. GPU_DATA_PRESENT_SIMPLE True objs = Inr t \<and> prefix ''!$omp target enter data '' t) \<and>
   (\<exists>t. GPU_DATA_PRESENT_IF True (cond # objs) = Inr t \<and> prefix ''!$omp target enter data '' t) \<and>
   (\<exists>t. GPU_DATA_PRESENT_COPY True (cond # copyin # copy # objs) = Inr t \<and>
        prefix ''!$omp target enter data '' t) \<and>
   (\<exists>t. GPU_DATA_ALLOC False objs = Inr t \<and> prefix ''!$acc enter data create('' t) \<and>
   (\<exists>t. GPU_DATA_PRESENT_SIMPLE False objs = Inr t \<and> prefix ''!$acc data present('' t) \<and>
   (\<exists>t. GPU_DATA_PRESENT_IF False (cond # objs) = Inr t \<and> prefix ''!$acc data present('' t) \<and>
   (\<exists>t. GPU_DATA_PRESENT_COPY False (cond # copyin # copy # objs) = Inr t \<and>
        prefix ''!$acc data present('' t)"
  by (simp add: ALLOC_omp ALLOC_acc PRESENT_SIMPLE_omp PRESENT_SIMPLE_acc PRESENT_IF_omp
        PRESENT_IF_acc PRESENT_COPY_omp PRESENT_COPY_acc)

end
